theory Spec2Isabelle
  imports Complex_Main "HOL-Library.Multiset" "HOL-Library.Code_Target_Numeral"
begin

section \<open>The SpongeWorld annotation client (\<open>spongeworld_calour.py\<close>)\<close>

text \<open>
  A shallow embedding of the class \<open>SpongeWorld\<close>. Python integers are \<open>int\<close>,
  Python strings are \<open>string\<close>, dictionaries whose iteration order matters are
  association lists, and every \<open>raise\<close> of the source (and of the indexing, division and
  library calls it makes) is an \<open>Inl\<close> value of a sum type.

  A Python float is an IEEE double: a finite one is the real number it denotes, with its
  sign kept where the sign of zero can be seen, and every float operation of the source
  rounds its exact result to the nearest double. The function \<open>scipy.stats.binom.cdf\<close>
  is not part of the program and is a parameter of the model; the value \<open>nan\<close> that it
  may return is \<open>None\<close> of \<open>real option\<close>. Calls of \<open>logger.debug\<close> and
  \<open>logger.warn\<close> change nothing that the functions return and are left out.
\<close>

subsection \<open>Errors\<close>

datatype py_error =
    KeyError string
  | ZeroDivisionError
  | OverflowError
  | ValueError string
  | RequestException
  | JSONDecodeError

subsection \<open>Strings: \<open>str.lower\<close>, \<open>str.upper\<close> and \<open>%d\<close>\<close>

text \<open>The case conversions on the ASCII letters; every other character is unchanged.\<close>

definition ascii_lowercase :: string where
  "ascii_lowercase = ''abcdefghijklmnopqrstuvwxyz''"

definition ascii_uppercase :: string where
  "ascii_uppercase = ''ABCDEFGHIJKLMNOPQRSTUVWXYZ''"

definition char_upper :: "char \<Rightarrow> char" where
  "char_upper c = (case map_of (zip ascii_lowercase ascii_uppercase) c of
                     Some u \<Rightarrow> u | None \<Rightarrow> c)"

definition char_lower :: "char \<Rightarrow> char" where
  "char_lower c = (case map_of (zip ascii_uppercase ascii_lowercase) c of
                     Some l \<Rightarrow> l | None \<Rightarrow> c)"

definition upper :: "string \<Rightarrow> string" where
  "upper s = map char_upper s"

definition lower :: "string \<Rightarrow> string" where
  "lower s = map char_lower s"

text \<open>Decimal digits of a natural number, most significant first.\<close>

definition digit_char :: "nat \<Rightarrow> char" where
  "digit_char d = ''0123456789'' ! d"

fun digits :: "nat \<Rightarrow> string" where
  "digits n = (if n < 10 then [digit_char n] else digits (n div 10) @ [digit_char (n mod 10)])"

declare digits.simps [simp del]

text \<open>\<open>'%d' % i\<close> for an integer \<open>i\<close>.\<close>

definition fmt_d :: "int \<Rightarrow> string" where
  "fmt_d i = (if i < 0 then ''-'' @ digits (nat (- i)) else digits (nat i))"

subsection \<open>Floats\<close>

text \<open>The integer nearest to a real number, a tie going to the even one.\<close>

definition round_half_even :: "real \<Rightarrow> int" where
  "round_half_even x =
     (let f = \<lfloor>x\<rfloor>; d = x - of_int f
      in if d < 1 / 2 then f else if 1 / 2 < d then f + 1 else if even f then f else f + 1)"

text \<open>The number of binary digits of a natural number.\<close>

fun bit_length :: "nat \<Rightarrow> nat" where
  "bit_length n = (if n = 0 then 0 else Suc (bit_length (n div 2)))"

declare bit_length.simps [simp del]

definition pow2 :: "int \<Rightarrow> real" where
  "pow2 e = (if 0 \<le> e then 2 ^ nat e else 1 / 2 ^ nat (- e))"

text \<open>The binary exponent \<open>e\<close> of a positive real \<open>x\<close>: \<open>2^e \<le> x < 2^(e+1)\<close>.\<close>

definition exponent :: "real \<Rightarrow> int" where
  "exponent x =
     (if 1 \<le> x then int (bit_length (nat \<lfloor>x\<rfloor>)) - 1
      else - int (bit_length (nat (\<lceil>1 / x\<rceil> - 1))))"

text \<open>
  The double nearest to a real number (53 significant bits, the smallest exponent -1022,
  below it the fixed spacing \<open>2^-1074\<close>), a tie going to the even significand. A result
  of magnitude \<open>2^1024\<close> stands for an overflow.
\<close>

definition round_double :: "real \<Rightarrow> real" where
  "round_double x =
     (if x = 0 then 0
      else let e = max (exponent \<bar>x\<bar>) (- 1022); ulp = pow2 (e - 52)
           in real_of_int (round_half_even (x / ulp)) * ulp)"

text \<open>A finite float: its sign bit and its magnitude.\<close>

datatype pyfloat = PyFloat (negative: bool) (magnitude: real)

definition fvalue :: "pyfloat \<Rightarrow> real" where
  "fvalue x = (if negative x then - magnitude x else magnitude x)"

text \<open>
  \<open>a / b\<close> for integers \<open>a\<close> and \<open>b\<close>: the correctly rounded quotient, with the sign of
  the exact quotient also when the result is zero; \<open>ZeroDivisionError\<close> for \<open>b = 0\<close>,
  \<open>OverflowError\<close> when the rounded quotient is too large for a float.
\<close>

definition truediv :: "int \<Rightarrow> int \<Rightarrow> py_error + pyfloat" where
  "truediv a b =
     (if b = 0 then Inl ZeroDivisionError
      else let m = round_double \<bar>real_of_int a / real_of_int b\<bar>
           in if 2 ^ 1024 \<le> m then Inl OverflowError
              else Inr (PyFloat ((a < 0) \<noteq> (b < 0)) m))"

text \<open>
  \<open>'%f' % x\<close>: the sign, then the magnitude with six digits after the point, the nearest
  such decimal to the exact value of the float, a tie going to the even last digit.
\<close>

definition zero_pad :: "nat \<Rightarrow> string \<Rightarrow> string" where
  "zero_pad w s = replicate (w - length s) (CHR ''0'') @ s"

definition fmt_f :: "pyfloat \<Rightarrow> string" where
  "fmt_f x =
     (let m = nat (round_half_even (magnitude x * 1000000))
      in (if negative x then ''-'' else '''') @ digits (m div 1000000) @ ''.''
         @ zero_pad 6 (digits (m mod 1000000)))"

subsection \<open>Construction: \<open>__init__\<close> and \<open>_get_db_address\<close>\<close>

text \<open>\<open>os.environ\<close> is a map from variable names to values.\<close>

type_synonym environ = "string \<rightharpoonup> string"

definition get_db_address :: "environ \<Rightarrow> py_error + string" where
  "get_db_address env =
     (case env ''SPONGEWORLD_SERVER_TYPE'' of
        Some v \<Rightarrow>
          (let servertype = lower v
           in if servertype = ''local'' then Inr ''http://127.0.0.1:5000''
              else if servertype = ''main'' then Inr ''http://amnonim.webfactional.com/spongeworld/''
              else if servertype = ''develop'' then Inr ''http://amnonim.webfactional.com/spongeworld_develop''
              else Inl (ValueError (''unknown server type '' @ servertype @ '' in SPONGEWORLD_SERVER_TYPE'')))
      | None \<Rightarrow> Inr ''http://amnonim.webfactional.com/spongeworld'')"

text \<open>
  The object after \<open>__init__\<close>. \<open>get_config_value\<close> belongs to the host framework and
  is a parameter: it maps a key and a section to the configured value, if any.
\<close>

record spongeworld =
  database_name :: string
  methods :: "string list"
  dburl :: string
  username :: "string option"
  password :: "string option"
  web_interface :: string

definition init :: "environ \<Rightarrow> (string \<Rightarrow> string \<Rightarrow> string option) \<Rightarrow> py_error + spongeworld" where
  "init env get_config_value =
     (case get_db_address env of
        Inl e \<Rightarrow> Inl e
      | Inr address \<Rightarrow>
          Inr \<lparr>database_name = ''SpongeWorld'', methods = [''get''], dburl = address,
               username = get_config_value ''username'' ''dbBact'',
               password = get_config_value ''password'' ''dbBact'',
               web_interface = address\<rparr>)"

subsection \<open>The response payload\<close>

text \<open>
  The parsed JSON of \<open>sequence/info\<close>. A key of the top-level dictionary may be absent
  (\<open>None\<close>), and the value of \<open>total_observed\<close> may be JSON \<open>null\<close>. The inner
  dictionaries keep their insertion order, as Python dictionaries do.
\<close>

datatype jint = JNull | JInt int

record distribution =
  total_val_samples :: int
  observed_val_samples :: int

type_synonym field_info = "(string \<times> (string \<times> distribution) list) list"

record seq_info =
  total_samples :: "int option"
  total_observed :: "jint option"
  info :: "field_info option"

subsection \<open>\<open>get_annotation_string\<close>\<close>

text \<open>
  The library function \<open>scipy.stats.binom.cdf(k, n, p)\<close>: for two integers and a float it
  gives a float or \<open>nan\<close>.
\<close>

type_synonym cdf = "int \<Rightarrow> int \<Rightarrow> real \<Rightarrow> real option"

text \<open>
  An element \<open>[cdesc, cfrac, cpval]\<close> of the list \<open>keep\<close>; the two floats are kept by
  their values, which is what the sorting compares.
\<close>

record scored =
  cdesc :: string
  cfrac :: real
  cpval :: real

text \<open>
  The inner loop over the values of one field, with the list \<open>keep\<close> threaded through.
  The division \<open>observed_val_samples / total_val_samples\<close> may raise. The test
  \<open>cpval <= pval\<close> is false when \<open>cpval\<close> is \<open>nan\<close>.
\<close>

fun scan_values :: "cdf \<Rightarrow> real \<Rightarrow> real \<Rightarrow> string \<Rightarrow> (string \<times> distribution) list \<Rightarrow> scored list
                    \<Rightarrow> py_error + scored list" where
  "scan_values binom_cdf pval null_pv cfield [] keep = Inr keep"
| "scan_values binom_cdf pval null_pv cfield ((cval, cdist) # rest) keep =
     (case truediv (observed_val_samples cdist) (total_val_samples cdist) of
        Inl e \<Rightarrow> Inl e
      | Inr r \<Rightarrow>
          (case binom_cdf (total_val_samples cdist - observed_val_samples cdist)
                  (total_val_samples cdist) null_pv of
             None \<Rightarrow> scan_values binom_cdf pval null_pv cfield rest keep
           | Some p \<Rightarrow>
               if p \<le> pval
               then scan_values binom_cdf pval null_pv cfield rest
                      (keep @ [\<lparr>cdesc = cfield @ '':'' @ cval @ '' (''
                                         @ fmt_d (observed_val_samples cdist) @ ''/''
                                         @ fmt_d (total_val_samples cdist) @ '')'',
                                cfrac = fvalue r, cpval = p\<rparr>])
               else scan_values binom_cdf pval null_pv cfield rest keep))"

text \<open>The outer loop over the fields.\<close>

fun scan_fields :: "cdf \<Rightarrow> real \<Rightarrow> real \<Rightarrow> field_info \<Rightarrow> scored list \<Rightarrow> py_error + scored list" where
  "scan_fields binom_cdf pval null_pv [] keep = Inr keep"
| "scan_fields binom_cdf pval null_pv ((cfield, vals) # rest) keep =
     (case scan_values binom_cdf pval null_pv cfield vals keep of
        Inl e \<Rightarrow> Inl e
      | Inr keep' \<Rightarrow> scan_fields binom_cdf pval null_pv rest keep')"

text \<open>
  \<open>sorted(xs, key=..., reverse=...)\<close>: a stable sort; with \<open>reverse=True\<close> the list is
  reversed, sorted and reversed again, so that equal keys keep their order.
\<close>

definition py_sorted :: "('a \<Rightarrow> real) \<Rightarrow> bool \<Rightarrow> 'a list \<Rightarrow> 'a list" where
  "py_sorted key reverse xs = (if reverse then rev (sort_key key (rev xs)) else sort_key key xs)"

text \<open>
  The function itself. The quotient \<open>total_observed / total_samples\<close> is computed for
  \<open>null_pv\<close> and again, with the same result, for the header; \<open>1 - x\<close> rounds like every
  float operation.
\<close>

definition get_annotation_string :: "cdf \<Rightarrow> seq_info \<Rightarrow> real \<Rightarrow> py_error + string list" where
  "get_annotation_string binom_cdf i pval =
     (case total_observed i of
        None \<Rightarrow> Inl (KeyError ''total_observed'')
      | Some JNull \<Rightarrow> Inr []
      | Some (JInt t) \<Rightarrow>
          if t = 0 then Inr []
          else
            (case total_samples i of
               None \<Rightarrow> Inl (KeyError ''total_samples'')
             | Some n \<Rightarrow>
                 (case truediv t n of
                    Inl e \<Rightarrow> Inl e
                  | Inr q \<Rightarrow>
                      (case info i of
                         None \<Rightarrow> Inl (KeyError ''info'')
                       | Some finfo \<Rightarrow>
                           (case scan_fields binom_cdf pval (round_double (1 - fvalue q)) finfo [] of
                              Inl e \<Rightarrow> Inl e
                            | Inr keep \<Rightarrow>
                                Inr ((''Found in '' @ fmt_f q @ '' samples ('' @ fmt_d t @ '' / ''
                                        @ fmt_d n @ '')'')
                                     # map cdesc
                                         (py_sorted cfrac True (py_sorted cpval False keep))))))))"

text \<open>The default threshold \<open>pval=0.1\<close>: the float written \<open>0.1\<close>.\<close>

definition default_pval :: real where
  "default_pval = round_double (1 / 10)"

subsection \<open>Requests\<close>

text \<open>
  The HTTP library is a parameter: \<open>requests.get(url, json=rdata)\<close> either raises or
  gives a response, of which the code reads the status and the parsed body. Each
  function returns the requests it issued next to its result.
\<close>

record response =
  status_code :: int
  json :: "py_error + seq_info"

type_synonym rdata = "(string \<times> string) list"

type_synonym transport = "string \<Rightarrow> rdata \<Rightarrow> py_error + response"

datatype request = GET string rdata

definition get :: "spongeworld \<Rightarrow> transport \<Rightarrow> string \<Rightarrow> rdata \<Rightarrow> request list \<times> (py_error + response)" where
  "get self http api rdata =
     ([GET (dburl self @ ''/'' @ api) rdata], http (dburl self @ ''/'' @ api) rdata)"

definition get_seq_annotations :: "spongeworld \<Rightarrow> transport \<Rightarrow> cdf \<Rightarrow> string
                                   \<Rightarrow> request list \<times> (py_error + string list)" where
  "get_seq_annotations self http binom_cdf sequence =
     (let sequence' = upper sequence;
          rdata = [(''sequence'', sequence')];
          (reqs, r) = get self http ''sequence/info'' rdata
      in case r of
           Inl e \<Rightarrow> (reqs, Inl e)
         | Inr res \<Rightarrow>
             if status_code res \<noteq> 200 then (reqs, Inr [])
             else
               (case json res of
                  Inl e \<Rightarrow> (reqs, Inl e)
                | Inr i \<Rightarrow> (reqs, get_annotation_string binom_cdf i default_pval)))"

definition get_seq_annotation_strings :: "spongeworld \<Rightarrow> transport \<Rightarrow> cdf \<Rightarrow> string
    \<Rightarrow> request list \<times> (py_error + (rdata \<times> string) list)" where
  "get_seq_annotation_strings self http binom_cdf sequence =
     (case get_seq_annotations self http binom_cdf sequence of
        (reqs, Inl e) \<Rightarrow> (reqs, Inl e)
      | (reqs, Inr annotations) \<Rightarrow>
          (reqs, Inr (map (\<lambda>cann. ([(''annotationtype'', ''other''), (''sequence'', sequence)], cann))
                        annotations)))"

subsection \<open>The binomial distribution function in exact arithmetic\<close>

text \<open>
  The function that \<open>scipy.stats.binom.cdf(k, n, p)\<close> computes, as the library documents
  it and without its rounding: \<open>nan\<close> when the parameters are outside the domain
  (\<open>n < 0\<close> or \<open>p\<close> outside \<open>[0,1]\<close>), 0 below the support, 1 from the upper end of the
  support on, and inside the support the sum of the probability mass function up to and
  including \<open>k\<close>.
\<close>

definition binom_pmf :: "nat \<Rightarrow> real \<Rightarrow> nat \<Rightarrow> real" where
  "binom_pmf n p i = real (n choose i) * p ^ i * (1 - p) ^ (n - i)"

definition exact_binom_cdf :: cdf where
  "exact_binom_cdf k n p =
     (if n < 0 \<or> p < 0 \<or> 1 < p then None
      else if k < 0 then Some 0
      else if n \<le> k then Some 1
      else Some (sum_list (map (binom_pmf (nat n) p) [0..<Suc (nat k)])))"

text \<open>
  The p-value of one distribution for a null rate, with that function: the arguments are
  those of the call in the inner loop.
\<close>

definition value_pval :: "real \<Rightarrow> distribution \<Rightarrow> real option" where
  "value_pval null_pv cdist =
     exact_binom_cdf (total_val_samples cdist - observed_val_samples cdist)
       (total_val_samples cdist) null_pv"

subsection \<open>Concrete collaborators used in the examples\<close>

text \<open>A configuration store with no entries.\<close>

definition no_config :: "string \<Rightarrow> string \<Rightarrow> string option" where
  "no_config key section = None"

text \<open>
  A payload: the sequence is in 1 of 2 samples; three values of the field \<open>host\<close>, seen in
  3 of 4, 1 of 1 and 0 of 1 samples.
\<close>

definition example_fields :: field_info where
  "example_fields =
     [(''host'', [(''a'', \<lparr>total_val_samples = 4, observed_val_samples = 3\<rparr>),
                  (''b'', \<lparr>total_val_samples = 1, observed_val_samples = 1\<rparr>),
                  (''c'', \<lparr>total_val_samples = 1, observed_val_samples = 0\<rparr>)])]"

definition example_info :: seq_info where
  "example_info =
     \<lparr>total_samples = Some 2, total_observed = Some (JInt 1), info = Some example_fields\<rparr>"

text \<open>The object constructed with the variable set to \<open>local\<close>.\<close>

definition local_client :: spongeworld where
  "local_client =
     \<lparr>database_name = ''SpongeWorld'', methods = [''get''], dburl = ''http://127.0.0.1:5000'',
      username = None, password = None, web_interface = ''http://127.0.0.1:5000''\<rparr>"

text \<open>A server that answers every request with status 404, and one that answers with
  status 200 and the payload above.\<close>

definition not_found_server :: transport where
  "not_found_server url rdata = Inr \<lparr>status_code = 404, json = Inl JSONDecodeError\<rparr>"

definition example_server :: transport where
  "example_server url rdata = Inr \<lparr>status_code = 200, json = Inr example_info\<rparr>"

subsection \<open>Notions used to state the results\<close>

text \<open>All \<open>(field, value, distribution)\<close> triples of a payload, in iteration order.\<close>

definition triples :: "field_info \<Rightarrow> (string \<times> string \<times> distribution) list" where
  "triples finfo =
     concat (map (\<lambda>(cfield, vals). map (\<lambda>(cval, cdist). (cfield, cval, cdist)) vals) finfo)"

text \<open>
  The observed rate of a distribution, \<open>observed_samples / total_samples\<close> as a float
  (0 stands in where the division raises).
\<close>

definition observed_rate :: "distribution \<Rightarrow> real" where
  "observed_rate d =
     (case truediv (observed_val_samples d) (total_val_samples d) of
        Inl e \<Rightarrow> 0 | Inr q \<Rightarrow> fvalue q)"

text \<open>
  The p-value of a triple for a null rate: the library's binomial distribution function
  for \<open>n = total_samples\<close> trials and the null rate as success probability, taken at
  \<open>total_samples - observed_samples\<close>.
\<close>

definition pvalue :: "cdf \<Rightarrow> real \<Rightarrow> distribution \<Rightarrow> real option" where
  "pvalue binom_cdf null_rate d =
     binom_cdf (total_val_samples d - observed_val_samples d) (total_val_samples d) null_rate"

text \<open>A distribution whose p-value is a number not above the threshold.\<close>

definition significant :: "cdf \<Rightarrow> real \<Rightarrow> real \<Rightarrow> distribution \<Rightarrow> bool" where
  "significant binom_cdf pval null_rate d =
     (case pvalue binom_cdf null_rate d of None \<Rightarrow> False | Some p \<Rightarrow> p \<le> pval)"

text \<open>
  The descriptor of a triple: the text \<open><field>:<value> (<observed_samples>/<total_samples>)\<close>,
  paired with the observed rate and the p-value.
\<close>

definition descriptor :: "cdf \<Rightarrow> real \<Rightarrow> string \<times> string \<times> distribution
                          \<Rightarrow> string \<times> real \<times> real option" where
  "descriptor binom_cdf null_rate x =
     (case x of (f, v, d) \<Rightarrow>
        (f @ '':'' @ v @ '' ('' @ fmt_d (observed_val_samples d) @ ''/''
           @ fmt_d (total_val_samples d) @ '')'',
         observed_rate d, pvalue binom_cdf null_rate d))"

text \<open>
  The order of the ranking: a higher fraction first, and for equal fractions a p-value
  that is not larger.
\<close>

definition ranked_before :: "scored \<Rightarrow> scored \<Rightarrow> bool" where
  "ranked_before a b \<longleftrightarrow> cfrac b < cfrac a \<or> (cfrac a = cfrac b \<and> cpval a \<le> cpval b)"

subsection \<open>The binomial distribution function, as the specification words it\<close>

text \<open>
  The probability, under a binomial distribution with \<open>n\<close> trials and success probability
  \<open>p\<close>, of at most \<open>k\<close> successes: the sum of the point probabilities of the counts
  \<open>0, \<dots>, n\<close> that do not exceed \<open>k\<close>.
\<close>

definition spec_binomial_cdf :: "nat \<Rightarrow> real \<Rightarrow> int \<Rightarrow> real" where
  "spec_binomial_cdf n p k =
     (\<Sum>j \<in> {j. j \<le> n \<and> int j \<le> k}. real (n choose j) * p ^ j * (1 - p) ^ (n - j))"


section \<open>Results\<close>

subsection \<open>Server address\<close>

lemma lower_staging: "lower ''staging'' = ''staging''"
  by (simp add: lower_def char_lower_def ascii_lowercase_def ascii_uppercase_def)

lemma lower_Develop: "lower ''Develop'' = ''develop''"
  by (simp add: lower_def char_lower_def ascii_lowercase_def ascii_uppercase_def)

text \<open>
  C8, as stated, fails: the value of the variable is lower-cased before it is compared,
  so \<open>LOCAL\<close>, which is none of \<open>local\<close>, \<open>main\<close>, \<open>develop\<close>, is accepted and the
  object is constructed.
\<close>

theorem uppercase_local_is_accepted:
  "''LOCAL'' \<notin> {''local'', ''main'', ''develop''}
   \<and> init [''SPONGEWORLD_SERVER_TYPE'' \<mapsto> ''LOCAL''] no_config
       = Inr \<lparr>database_name = ''SpongeWorld'', methods = [''get''],
              dburl = ''http://127.0.0.1:5000'', username = None, password = None,
              web_interface = ''http://127.0.0.1:5000''\<rparr>"
  by (simp add: init_def get_db_address_def no_config_def lower_def char_lower_def
        ascii_lowercase_def ascii_uppercase_def)

text \<open>
  C8, amended: when the variable is set and its lower-cased value is none of \<open>local\<close>,
  \<open>main\<close>, \<open>develop\<close>, construction fails at once with a \<open>ValueError\<close> and no object
  exists; when the lower-cased value is one of the three, construction succeeds and the
  address of that tier is stored as \<open>dburl\<close> and as \<open>web_interface\<close>.
\<close>

theorem init_server_type:
  assumes "env ''SPONGEWORLD_SERVER_TYPE'' = Some v"
  shows "(lower v \<notin> {''local'', ''main'', ''develop''} \<longrightarrow>
            init env get_config_value
              = Inl (ValueError (''unknown server type '' @ lower v @ '' in SPONGEWORLD_SERVER_TYPE'')))
       \<and> (lower v \<in> {''local'', ''main'', ''develop''} \<longrightarrow>
            (\<exists>self. init env get_config_value = Inr self
               \<and> web_interface self = dburl self
               \<and> dburl self =
                   (if lower v = ''local'' then ''http://127.0.0.1:5000''
                    else if lower v = ''main'' then ''http://amnonim.webfactional.com/spongeworld/''
                    else ''http://amnonim.webfactional.com/spongeworld_develop'')))"
  using assms by (simp add: init_def get_db_address_def Let_def)

text \<open>The amended C8 at the values \<open>staging\<close> (rejected) and \<open>Develop\<close> (accepted).\<close>

theorem init_server_type_witness:
  "init [''SPONGEWORLD_SERVER_TYPE'' \<mapsto> ''staging''] no_config
     = Inl (ValueError ''unknown server type staging in SPONGEWORLD_SERVER_TYPE'')
   \<and> (\<exists>self. init [''SPONGEWORLD_SERVER_TYPE'' \<mapsto> ''Develop''] no_config = Inr self
        \<and> dburl self = ''http://amnonim.webfactional.com/spongeworld_develop'')"
  using init_server_type [of "[''SPONGEWORLD_SERVER_TYPE'' \<mapsto> ''staging'']" "''staging''" no_config]
        init_server_type [of "[''SPONGEWORLD_SERVER_TYPE'' \<mapsto> ''Develop'']" "''Develop''" no_config]
  by (auto simp: lower_staging lower_Develop)

text \<open>
  C9: the address used when the variable is absent and the address used for the value
  \<open>main\<close> are two different strings: the second ends in a slash, the first does not.
\<close>

theorem default_address_differs_from_main:
  "get_db_address Map.empty = Inr ''http://amnonim.webfactional.com/spongeworld''
   \<and> get_db_address [''SPONGEWORLD_SERVER_TYPE'' \<mapsto> ''main'']
       = Inr ''http://amnonim.webfactional.com/spongeworld/''
   \<and> get_db_address Map.empty \<noteq> get_db_address [''SPONGEWORLD_SERVER_TYPE'' \<mapsto> ''main'']"
  by (simp add: get_db_address_def lower_def char_lower_def ascii_lowercase_def ascii_uppercase_def)

subsection \<open>Floats\<close>

lemma round_half_even_le: "real_of_int (round_half_even y) \<le> y + 1"
proof -
  have fl: "real_of_int \<lfloor>y\<rfloor> \<le> y" by (rule of_int_floor_le)
  show ?thesis
    by (auto simp: round_half_even_def Let_def) (use fl in linarith)+
qed

lemma round_half_even_nonneg: "0 \<le> y \<Longrightarrow> 0 \<le> round_half_even y"
  by (auto simp: round_half_even_def Let_def)

lemma pow2_pos: "0 < pow2 e"
  by (simp add: pow2_def)

lemma pow2_le_1: "e \<le> 0 \<Longrightarrow> pow2 e \<le> 1"
  by (simp add: pow2_def divide_le_eq)

lemma exponent_le_0: "x \<le> 1 \<Longrightarrow> exponent x \<le> 0"
proof (cases "1 \<le> x")
  case True
  assume "x \<le> 1"
  with True have "x = 1" by simp
  then show ?thesis by (simp add: exponent_def bit_length.simps)
next
  case False
  then show ?thesis by (simp add: exponent_def)
qed

lemma round_double_nonneg: "0 \<le> x \<Longrightarrow> 0 \<le> round_double x"
  using pow2_pos less_imp_le
  by (auto simp: round_double_def Let_def intro!: mult_nonneg_nonneg round_half_even_nonneg
        divide_nonneg_pos)

text \<open>A quotient of magnitude at most 1 is far from overflowing.\<close>

lemma round_double_le_2:
  assumes "0 \<le> x" "x \<le> 1"
  shows "round_double x \<le> 2"
proof (cases "x = 0")
  case True
  then show ?thesis by (simp add: round_double_def)
next
  case False
  define e where "e = max (exponent \<bar>x\<bar>) (- 1022)"
  define ulp where "ulp = pow2 (e - 52)"
  have "exponent \<bar>x\<bar> \<le> 0" using assms by (intro exponent_le_0) simp
  then have "e - 52 \<le> 0" by (simp add: e_def)
  then have ulp: "0 < ulp" "ulp \<le> 1" by (simp_all add: ulp_def pow2_pos pow2_le_1)
  have "real_of_int (round_half_even (x / ulp)) * ulp \<le> (x / ulp + 1) * ulp"
    using round_half_even_le [of "x / ulp"] ulp(1) by (intro mult_right_mono) simp_all
  also have "\<dots> = x + ulp" using ulp(1) by (simp add: field_simps)
  also have "\<dots> \<le> 2" using assms(2) ulp(2) by simp
  finally show ?thesis using False by (simp add: round_double_def Let_def e_def ulp_def)
qed

lemma truediv_rate_returns:
  assumes "0 \<le> a" "a \<le> b" "0 < b"
  shows "\<exists>q. truediv a b = Inr q"
proof -
  have "\<bar>real_of_int a / real_of_int b\<bar> \<le> 1" using assms by (simp add: divide_le_eq)
  then have "round_double \<bar>real_of_int a / real_of_int b\<bar> \<le> 2"
    by (intro round_double_le_2) simp_all
  moreover have "(2::real) < 2 ^ 1024"
    using power_strict_increasing [of 1 1024 "2::real"] by simp
  ultimately show ?thesis using assms(3) by (simp add: truediv_def Let_def)
qed

lemma truediv_returns_iff:
  "(\<exists>q. truediv a b = Inr q) \<longleftrightarrow> b \<noteq> 0 \<and> truediv a b \<noteq> Inl OverflowError"
  by (auto simp: truediv_def Let_def)

subsection \<open>The loop\<close>

lemma triples_Cons:
  "triples ((f, vals) # finfo) = map (\<lambda>(v, d). (f, v, d)) vals @ triples finfo"
  by (simp add: triples_def)

lemma observed_rate_Inr:
  "truediv (observed_val_samples d) (total_val_samples d) = Inr q \<Longrightarrow> observed_rate d = fvalue q"
  by (simp add: observed_rate_def)

text \<open>
  What a run of the inner loop that returns has done: no division raised, and the list
  grew by the descriptors of the significant values, in order.
\<close>

lemma scan_values_Inr:
  assumes "scan_values c pval np f vals keep0 = Inr keep"
  shows "(\<forall>(v, d) \<in> set vals. \<exists>q. truediv (observed_val_samples d) (total_val_samples d) = Inr q)
       \<and> (\<exists>new. keep = keep0 @ new
             \<and> map (\<lambda>e. (cdesc e, cfrac e, Some (cpval e))) new
                 = map (\<lambda>(v, d). descriptor c np (f, v, d))
                     (filter (\<lambda>(v, d). significant c pval np d) vals))"
  using assms
proof (induction vals arbitrary: keep0)
  case Nil
  then show ?case by simp
next
  case (Cons x vals)
  obtain v d where x: "x = (v, d)" by (cases x)
  from Cons.prems obtain q where
    q: "truediv (observed_val_samples d) (total_val_samples d) = Inr q"
    by (auto simp: x split: sum.splits)
  show ?case
  proof (cases "c (total_val_samples d - observed_val_samples d) (total_val_samples d) np")
    case None
    with Cons.prems q have "scan_values c pval np f vals keep0 = Inr keep" by (simp add: x)
    from Cons.IH [OF this] q None show ?thesis
      by (simp add: x significant_def pvalue_def)
  next
    case (Some p)
    show ?thesis
    proof (cases "p \<le> pval")
      case True
      let ?e = "\<lparr>cdesc = f @ '':'' @ v @ '' ('' @ fmt_d (observed_val_samples d) @ ''/''
                         @ fmt_d (total_val_samples d) @ '')'',
                cfrac = fvalue q, cpval = p\<rparr>"
      from Cons.prems q Some True
      have "scan_values c pval np f vals (keep0 @ [?e]) = Inr keep" by (simp add: x)
      from Cons.IH [OF this] obtain new where
        all: "\<forall>(v, d) \<in> set vals. \<exists>q. truediv (observed_val_samples d) (total_val_samples d) = Inr q"
        and keep: "keep = (keep0 @ [?e]) @ new"
        and new: "map (\<lambda>e. (cdesc e, cfrac e, Some (cpval e))) new
                    = map (\<lambda>(v, d). descriptor c np (f, v, d))
                        (filter (\<lambda>(v, d). significant c pval np d) vals)"
        by blast
      have "keep = keep0 @ (?e # new)" using keep by simp
      moreover have "map (\<lambda>e. (cdesc e, cfrac e, Some (cpval e))) (?e # new)
                       = map (\<lambda>(v, d). descriptor c np (f, v, d))
                           (filter (\<lambda>(v, d). significant c pval np d) (x # vals))"
        using new Some True q
        by (simp add: x significant_def pvalue_def descriptor_def observed_rate_Inr)
      ultimately show ?thesis using all q by (auto simp: x)
    next
      case False
      with Cons.prems q Some have "scan_values c pval np f vals keep0 = Inr keep" by (simp add: x)
      from Cons.IH [OF this] q Some False show ?thesis
        by (simp add: x significant_def pvalue_def)
    qed
  qed
qed

lemma scan_values_returns:
  assumes "\<forall>(v, d) \<in> set vals. \<exists>q. truediv (observed_val_samples d) (total_val_samples d) = Inr q"
  shows "\<exists>keep. scan_values c pval np f vals keep0 = Inr keep"
  using assms
proof (induction vals arbitrary: keep0)
  case Nil
  then show ?case by simp
next
  case (Cons x vals)
  obtain v d where x: "x = (v, d)" by (cases x)
  from Cons.prems obtain q where
    q: "truediv (observed_val_samples d) (total_val_samples d) = Inr q"
    and rest: "\<forall>(v, d) \<in> set vals. \<exists>q. truediv (observed_val_samples d) (total_val_samples d) = Inr q"
    by (auto simp: x)
  show ?case
    using Cons.IH [OF rest] q by (simp add: x split: option.splits)
qed

lemma scan_fields_Inr:
  assumes "scan_fields c pval np finfo keep0 = Inr keep"
  shows "(\<forall>(f, v, d) \<in> set (triples finfo).
            \<exists>q. truediv (observed_val_samples d) (total_val_samples d) = Inr q)
       \<and> (\<exists>new. keep = keep0 @ new
             \<and> map (\<lambda>e. (cdesc e, cfrac e, Some (cpval e))) new
                 = map (descriptor c np)
                     (filter (\<lambda>(f, v, d). significant c pval np d) (triples finfo)))"
  using assms
proof (induction finfo arbitrary: keep0)
  case Nil
  then show ?case by (simp add: triples_def)
next
  case (Cons x finfo)
  obtain f vals where x: "x = (f, vals)" by (cases x)
  from Cons.prems obtain keep1 where
    k1: "scan_values c pval np f vals keep0 = Inr keep1"
    and k2: "scan_fields c pval np finfo keep1 = Inr keep"
    by (auto simp: x split: sum.splits)
  from scan_values_Inr [OF k1] obtain new1 where
    a1: "\<forall>(v, d) \<in> set vals. \<exists>q. truediv (observed_val_samples d) (total_val_samples d) = Inr q"
    and n1: "keep1 = keep0 @ new1"
    and m1: "map (\<lambda>e. (cdesc e, cfrac e, Some (cpval e))) new1
               = map (\<lambda>(v, d). descriptor c np (f, v, d))
                   (filter (\<lambda>(v, d). significant c pval np d) vals)"
    by blast
  from Cons.IH [OF k2] obtain new2 where
    a2: "\<forall>(f, v, d) \<in> set (triples finfo).
           \<exists>q. truediv (observed_val_samples d) (total_val_samples d) = Inr q"
    and n2: "keep = keep1 @ new2"
    and m2: "map (\<lambda>e. (cdesc e, cfrac e, Some (cpval e))) new2
               = map (descriptor c np)
                   (filter (\<lambda>(f, v, d). significant c pval np d) (triples finfo))"
    by blast
  have "keep = keep0 @ (new1 @ new2)" using n1 n2 by simp
  moreover have "map (\<lambda>e. (cdesc e, cfrac e, Some (cpval e))) (new1 @ new2)
                   = map (descriptor c np)
                       (filter (\<lambda>(f, v, d). significant c pval np d) (triples (x # finfo)))"
    using m1 m2 by (simp add: x triples_Cons filter_map o_def case_prod_unfold)
  moreover have "\<forall>(f, v, d) \<in> set (triples (x # finfo)).
                   \<exists>q. truediv (observed_val_samples d) (total_val_samples d) = Inr q"
    using a1 a2 by (auto simp: x triples_Cons)
  ultimately show ?case by blast
qed

lemma scan_fields_returns:
  assumes "\<forall>(f, v, d) \<in> set (triples finfo).
             \<exists>q. truediv (observed_val_samples d) (total_val_samples d) = Inr q"
  shows "\<exists>keep. scan_fields c pval np finfo keep0 = Inr keep"
  using assms
proof (induction finfo arbitrary: keep0)
  case Nil
  then show ?case by simp
next
  case (Cons x finfo)
  obtain f vals where x: "x = (f, vals)" by (cases x)
  from Cons.prems have here: "\<forall>(v, d) \<in> set vals.
      \<exists>q. truediv (observed_val_samples d) (total_val_samples d) = Inr q"
    by (fastforce simp: x triples_Cons)
  from Cons.prems have rest: "\<forall>(f, v, d) \<in> set (triples finfo).
      \<exists>q. truediv (observed_val_samples d) (total_val_samples d) = Inr q"
    by (simp add: x triples_Cons ball_Un)
  from scan_values_returns [OF here] obtain keep1 where
    "scan_values c pval np f vals keep0 = Inr keep1" by blast
  with Cons.IH [OF rest] show ?case by (simp add: x)
qed

subsection \<open>The two sorts\<close>

lemma mset_py_sorted: "mset (py_sorted key reverse xs) = mset xs"
  by (simp add: py_sorted_def)

lemma py_sorted_ascending: "sorted_wrt (\<lambda>a b. key a \<le> key b) (py_sorted key False xs)"
  using sorted_sort_key [of key xs] by (simp add: py_sorted_def sorted_wrt_map)

lemma py_sorted_descending: "sorted_wrt (\<lambda>a b. key b \<le> key a) (py_sorted key True xs)"
proof -
  have "sorted_wrt (\<lambda>a b. key a \<le> key b) (sort_key key (rev xs))"
    using sorted_sort_key [of key "rev xs"] by (simp add: sorted_wrt_map)
  then show ?thesis by (simp add: py_sorted_def sorted_wrt_rev)
qed

lemma py_sorted_stable:
  "filter (\<lambda>y. key y = k) (py_sorted key reverse xs) = filter (\<lambda>y. key y = k) xs"
  by (simp add: py_sorted_def sort_key_stable rev_filter [symmetric])

lemma sorted_wrt_filter_imp:
  "sorted_wrt Q (filter R zs) \<Longrightarrow> sorted_wrt (\<lambda>a b. R a \<and> R b \<longrightarrow> Q a b) zs"
  by (induction zs) (auto split: if_splits)

lemma two_sorts_ranked:
  "sorted_wrt ranked_before (py_sorted cfrac True (py_sorted cpval False keep))"
proof -
  let ?xs = "py_sorted cpval False keep"
  let ?zs = "py_sorted cfrac True ?xs"
  have desc: "sorted_wrt (\<lambda>a b. cfrac b \<le> cfrac a) ?zs"
    by (rule py_sorted_descending)
  have asc: "sorted_wrt (\<lambda>a b. cpval a \<le> cpval b) ?xs"
    by (rule py_sorted_ascending)
  have tie: "sorted_wrt (\<lambda>a b. cfrac a = k \<and> cfrac b = k \<longrightarrow> cpval a \<le> cpval b) ?zs" for k
  proof (rule sorted_wrt_filter_imp)
    have "filter (\<lambda>y. cfrac y = k) ?zs = filter (\<lambda>y. cfrac y = k) ?xs"
      by (rule py_sorted_stable)
    then show "sorted_wrt (\<lambda>a b. cpval a \<le> cpval b) (filter (\<lambda>y. cfrac y = k) ?zs)"
      using asc by (simp add: sorted_wrt_filter)
  qed
  show ?thesis
    unfolding sorted_wrt_iff_nth_less
  proof (intro allI impI)
    fix i j assume ij: "i < j" "j < length ?zs"
    have 1: "cfrac (?zs ! j) \<le> cfrac (?zs ! i)"
      using sorted_wrt_nth_less [OF desc ij] .
    have 2: "cfrac (?zs ! i) = cfrac (?zs ! j) \<longrightarrow> cpval (?zs ! i) \<le> cpval (?zs ! j)"
      using sorted_wrt_nth_less [OF tie [of "cfrac (?zs ! j)"] ij] by simp
    from 1 2 show "ranked_before (?zs ! i) (?zs ! j)"
      unfolding ranked_before_def by linarith
  qed
qed

lemma two_sorts_stable:
  "filter (\<lambda>e. cfrac e = k \<and> cpval e = q) (py_sorted cfrac True (py_sorted cpval False keep))
     = filter (\<lambda>e. cfrac e = k \<and> cpval e = q) keep"
proof -
  let ?xs = "py_sorted cpval False keep"
  have "filter (\<lambda>e. cfrac e = k \<and> cpval e = q) (py_sorted cfrac True ?xs)
          = filter (\<lambda>e. cpval e = q) (filter (\<lambda>e. cfrac e = k) (py_sorted cfrac True ?xs))"
    by (simp add: conj_commute)
  also have "\<dots> = filter (\<lambda>e. cpval e = q) (filter (\<lambda>e. cfrac e = k) ?xs)"
    by (simp only: py_sorted_stable)
  also have "\<dots> = filter (\<lambda>e. cfrac e = k) (filter (\<lambda>e. cpval e = q) ?xs)"
    by (simp add: conj_commute)
  also have "\<dots> = filter (\<lambda>e. cfrac e = k) (filter (\<lambda>e. cpval e = q) keep)"
    by (simp only: py_sorted_stable)
  also have "\<dots> = filter (\<lambda>e. cfrac e = k \<and> cpval e = q) keep"
    by (simp add: conj_commute)
  finally show ?thesis .
qed

subsection \<open>The exact distribution function\<close>

lemma binom_pmf_nonneg: "0 \<le> p \<Longrightarrow> p \<le> 1 \<Longrightarrow> 0 \<le> binom_pmf n p i"
  by (simp add: binom_pmf_def)

lemma binom_pmf_total: "(\<Sum>j\<le>n. binom_pmf n p j) = 1"
proof -
  have "(p + (1 - p)) ^ n = (\<Sum>j\<le>n. binom_pmf n p j)"
    unfolding binom_pmf_def by (rule binomial_ring)
  then show ?thesis by simp
qed

lemma sum_list_binom_pmf:
  "sum_list (map (binom_pmf n p) [0..<Suc m]) = (\<Sum>j\<le>m. binom_pmf n p j)"
proof -
  have "{0..<Suc m} = {..m}" by auto
  then show ?thesis by (simp add: interv_sum_list_conv_sum_set_nat del: upt_Suc)
qed

lemma spec_binomial_cdf_pmf:
  "spec_binomial_cdf n p k = (\<Sum>j \<in> {j. j \<le> n \<and> int j \<le> k}. binom_pmf n p j)"
  by (simp add: spec_binomial_cdf_def binom_pmf_def)

text \<open>
  On its domain the library function is the distribution function: below the support the
  set of counts is empty, and from the upper end on the sum is the whole binomial expansion.
\<close>

lemma exact_binom_cdf_spec:
  assumes "0 \<le> n" "0 \<le> p" "p \<le> 1"
  shows "exact_binom_cdf k n p = Some (spec_binomial_cdf (nat n) p k)"
proof -
  consider (below) "k < 0" | (above) "n \<le> k" | (inside) "0 \<le> k" "k < n" by linarith
  then show ?thesis
  proof cases
    case below
    then have "{j. j \<le> nat n \<and> int j \<le> k} = {}" by auto
    with below assms show ?thesis by (simp add: exact_binom_cdf_def spec_binomial_cdf_pmf)
  next
    case above
    with assms have "{j. j \<le> nat n \<and> int j \<le> k} = {..nat n}" by auto
    with above assms show ?thesis
      by (simp add: exact_binom_cdf_def spec_binomial_cdf_pmf binom_pmf_total)
  next
    case inside
    then have "{j. j \<le> nat n \<and> int j \<le> k} = {..nat k}" by auto
    with inside assms show ?thesis
      by (simp add: exact_binom_cdf_def spec_binomial_cdf_pmf sum_list_binom_pmf del: upt_Suc)
  qed
qed

lemma spec_binomial_cdf_mono:
  assumes "0 \<le> p" "p \<le> 1" "k \<le> k'"
  shows "spec_binomial_cdf n p k \<le> spec_binomial_cdf n p k'"
  unfolding spec_binomial_cdf_pmf
proof (rule sum_mono2)
  show "finite {j. j \<le> n \<and> int j \<le> k'}" by simp
  show "{j. j \<le> n \<and> int j \<le> k} \<subseteq> {j. j \<le> n \<and> int j \<le> k'}"
    using assms(3) by auto
  show "0 \<le> binom_pmf n p b" for b
    using assms(1,2) by (rule binom_pmf_nonneg)
qed

text \<open>
  C6: for a null rate in \<open>[0,1]\<close> and a fixed \<open>total_samples = n\<close>, a larger
  \<open>observed_samples\<close> never has a larger p-value. (For \<open>n < 0\<close> both p-values are \<open>nan\<close>.)
  The p-value is that of the exact distribution function at the arguments of the call in
  the loop.
\<close>

theorem pval_antimono_in_observed:
  assumes "0 \<le> p" "p \<le> 1" "ov \<le> ov'"
  shows "case (value_pval p \<lparr>total_val_samples = n, observed_val_samples = ov\<rparr>,
               value_pval p \<lparr>total_val_samples = n, observed_val_samples = ov'\<rparr>) of
           (Some a, Some b) \<Rightarrow> b \<le> a
         | (None, None) \<Rightarrow> n < 0
         | _ \<Rightarrow> False"
proof (cases "n < 0")
  case True
  then show ?thesis by (simp add: value_pval_def exact_binom_cdf_def)
next
  case False
  then have n: "0 \<le> n" by simp
  have "n - ov' \<le> n - ov" using assms(3) by simp
  then have "spec_binomial_cdf (nat n) p (n - ov') \<le> spec_binomial_cdf (nat n) p (n - ov)"
    using assms(1,2) by (intro spec_binomial_cdf_mono)
  then show ?thesis
    by (simp add: value_pval_def exact_binom_cdf_spec [OF n assms(1,2)])
qed

text \<open>
  C6 at Binomial(2, 1/2): with 1 of 2 samples observed the p-value is 3/4, with 2 of 2 it
  is 1/4.
\<close>

theorem pval_antimono_in_observed_witness:
  "value_pval (1 / 2) \<lparr>total_val_samples = 2, observed_val_samples = 1\<rparr> = Some (3 / 4)
   \<and> value_pval (1 / 2) \<lparr>total_val_samples = 2, observed_val_samples = 2\<rparr> = Some (1 / 4)
   \<and> (1 / 4 :: real) \<le> 3 / 4"
proof -
  have a: "value_pval (1 / 2) \<lparr>total_val_samples = 2, observed_val_samples = 1\<rparr> = Some (3 / 4)"
    by code_simp
  have b: "value_pval (1 / 2) \<lparr>total_val_samples = 2, observed_val_samples = 2\<rparr> = Some (1 / 4)"
    by code_simp
  show ?thesis
    using pval_antimono_in_observed [of "1 / 2" 1 2 2] by (simp add: a b)
qed

subsection \<open>The example payload, evaluated\<close>

lemma exponent_half: "exponent (1 / 2) = - 1"
  by (simp add: exponent_def bit_length.simps)

lemma exponent_three_quarters: "exponent (3 / 4) = - 1"
  by (simp add: exponent_def bit_length.simps)

lemma exponent_one: "exponent 1 = 0"
  by (simp add: exponent_def bit_length.simps)

lemma exponent_tenth: "exponent (1 / 10) = - 4"
  by (simp add: exponent_def bit_length.simps)

lemma pow2_m53: "pow2 (- 53) = 1 / 9007199254740992"
  by (simp add: pow2_def)

lemma pow2_m52: "pow2 (- 52) = 1 / 4503599627370496"
  by (simp add: pow2_def)

lemma pow2_m56: "pow2 (- 56) = 1 / 72057594037927936"
  by (simp add: pow2_def)

lemma round_half_even_of_int: "round_half_even (real_of_int k) = k"
  by (simp add: round_half_even_def)

lemma round_double_half: "round_double (1 / 2) = 1 / 2"
  using round_half_even_of_int [of 4503599627370496]
  by (simp add: round_double_def exponent_half pow2_m53)

lemma round_double_three_quarters: "round_double (3 / 4) = 3 / 4"
  using round_half_even_of_int [of 6755399441055744]
  by (simp add: round_double_def exponent_three_quarters pow2_m53)

lemma round_double_one: "round_double 1 = 1"
  using round_half_even_of_int [of 4503599627370496]
  by (simp add: round_double_def exponent_one pow2_m52)

lemma round_tenth: "round_half_even (36028797018963968 / 5) = 7205759403792794"
  by (simp add: round_half_even_def)

lemma round_double_tenth: "round_double (1 / 10) = 3602879701896397 / 36028797018963968"
  by (simp add: round_double_def exponent_tenth pow2_m56 round_tenth)

lemma truediv_small:
  assumes "b \<noteq> 0" "round_double \<bar>real_of_int a / real_of_int b\<bar> = m" "m \<le> 2"
  shows "truediv a b = Inr (PyFloat ((a < 0) \<noteq> (b < 0)) m)"
proof -
  have "(2::real) ^ 1 < 2 ^ 1024" by (rule power_strict_increasing) simp_all
  with assms(3) have "\<not> 2 ^ 1024 \<le> m" by simp
  with assms(1,2) show ?thesis by (simp add: truediv_def Let_def)
qed

lemma round_double_zero: "round_double 0 = 0"
  by (simp add: round_double_def)

lemma example_truediv:
  "truediv 1 2 = Inr (PyFloat False (1 / 2))"
  "truediv 3 4 = Inr (PyFloat False (3 / 4))"
  "truediv 1 1 = Inr (PyFloat False 1)"
  "truediv 0 1 = Inr (PyFloat False 0)"
  using truediv_small [of 2 1 "1 / 2"] truediv_small [of 4 3 "3 / 4"]
        truediv_small [of 1 1 1] truediv_small [of 1 0 0]
  by (simp_all add: round_double_half round_double_three_quarters round_double_one
        round_double_zero)

lemma example_null_rate: "round_double (1 - fvalue (PyFloat False (1 / 2))) = 1 / 2"
  by (simp add: fvalue_def round_double_half)

lemma example_cdf:
  "exact_binom_cdf 1 4 (1 / 2) = Some (5 / 16)"
  "exact_binom_cdf 0 1 (1 / 2) = Some (1 / 2)"
  "exact_binom_cdf 1 1 (1 / 2) = Some 1"
  by code_simp+

lemma example_round: "round_half_even (1 / 2 * 1000000) = 500000"
  by (simp add: round_half_even_def)

lemma example_fmt_f: "fmt_f (PyFloat False (1 / 2)) = ''0.500000''"
  unfolding fmt_f_def pyfloat.sel example_round Let_def
  by (simp add: zero_pad_def digits.simps digit_char_def)

lemma example_fmt_d: "fmt_d 0 = ''0''" "fmt_d 1 = ''1''" "fmt_d 2 = ''2''" "fmt_d 3 = ''3''" "fmt_d 4 = ''4''"
  by (simp_all add: fmt_d_def digits.simps digit_char_def)

lemma example_triples:
  "triples example_fields =
     [(''host'', ''a'', \<lparr>total_val_samples = 4, observed_val_samples = 3\<rparr>),
      (''host'', ''b'', \<lparr>total_val_samples = 1, observed_val_samples = 1\<rparr>),
      (''host'', ''c'', \<lparr>total_val_samples = 1, observed_val_samples = 0\<rparr>)]"
  by (simp add: triples_def example_fields_def)

lemma example_scan:
  "scan_fields exact_binom_cdf (1 / 2) (1 / 2) example_fields [] =
     Inr [\<lparr>cdesc = ''host:a (3/4)'', cfrac = 3 / 4, cpval = 5 / 16\<rparr>,
          \<lparr>cdesc = ''host:b (1/1)'', cfrac = 1, cpval = 1 / 2\<rparr>]"
  by (simp add: example_fields_def example_truediv example_cdf example_fmt_d fvalue_def)

lemma example_sorted:
  "py_sorted cfrac True (py_sorted cpval False
     [\<lparr>cdesc = ''host:a (3/4)'', cfrac = 3 / 4, cpval = 5 / 16\<rparr>,
      \<lparr>cdesc = ''host:b (1/1)'', cfrac = 1, cpval = 1 / 2\<rparr>])
   = [\<lparr>cdesc = ''host:b (1/1)'', cfrac = 1, cpval = 1 / 2\<rparr>,
      \<lparr>cdesc = ''host:a (3/4)'', cfrac = 3 / 4, cpval = 5 / 16\<rparr>]"
  by (simp add: py_sorted_def)

lemma example_summary:
  "get_annotation_string exact_binom_cdf example_info (1 / 2)
     = Inr [''Found in 0.500000 samples (1 / 2)'', ''host:b (1/1)'', ''host:a (3/4)'']"
  by (simp add: get_annotation_string_def example_info_def example_truediv example_null_rate
        example_scan example_sorted example_fmt_f example_fmt_d)

lemma example_scan_default:
  "scan_fields exact_binom_cdf default_pval (1 / 2) example_fields [] = Inr []"
  by (simp add: example_fields_def example_truediv example_cdf default_pval_def round_double_tenth)

lemma example_summary_default:
  "get_annotation_string exact_binom_cdf example_info default_pval
     = Inr [''Found in 0.500000 samples (1 / 2)'']"
  by (simp add: get_annotation_string_def example_info_def example_truediv example_null_rate
        example_scan_default py_sorted_def example_fmt_f example_fmt_d)

subsection \<open>The header formats the float\<close>

lemma exponent_640th: "exponent (1 / 640) = - 10"
  by (simp add: exponent_def bit_length.simps)

lemma pow2_m62: "pow2 (- 62) = 1 / 4611686018427387904"
  by (simp add: pow2_def)

lemma round_640th: "round_half_even (36028797018963968 / 5) = 7205759403792794"
  by (simp add: round_half_even_def)

lemma round_double_640th: "round_double (1 / 640) = 3602879701896397 / 2305843009213693952"
  by (simp add: round_double_def exponent_640th pow2_m62 round_640th)

lemma truediv_1_640: "truediv 1 640 = Inr (PyFloat False (3602879701896397 / 2305843009213693952))"
  using truediv_small [of 640 1 "3602879701896397 / 2305843009213693952"]
  by (simp add: round_double_640th)

lemma round_1_640: "round_half_even (3602879701896397 / 2305843009213693952 * 1000000) = 1563"
  by (simp add: round_half_even_def)

text \<open>
  The header formats the float, not the exact quotient: 1/640 is 0.0015625, the float
  nearest to it is a little larger, and \<open>%f\<close> prints 0.001563.
\<close>

lemma header_formats_the_float:
  "get_annotation_string binom_cdf
     \<lparr>total_samples = Some 640, total_observed = Some (JInt 1), info = Some []\<rparr> pval
     = Inr [''Found in 0.001563 samples (1 / 640)'']"
proof -
  have "fmt_f (PyFloat False (3602879701896397 / 2305843009213693952)) = ''0.001563''"
    unfolding fmt_f_def pyfloat.sel round_1_640 Let_def
    by (simp add: zero_pad_def digits.simps digit_char_def numeral_2_eq_2)
  then show ?thesis
    by (simp add: get_annotation_string_def truediv_1_640 py_sorted_def fmt_d_def digits.simps
          digit_char_def)
qed

subsection \<open>The empty summary\<close>

text \<open>
  C3, as stated, fails for an absent key: the lookup \<open>info['total_observed']\<close> raises
  \<open>KeyError\<close>, so no summary is returned.
\<close>

theorem absent_total_observed_raises:
  "get_annotation_string exact_binom_cdf
     \<lparr>total_samples = Some 100, total_observed = None, info = Some []\<rparr> (1 / 10)
     = Inl (KeyError ''total_observed'')"
  by (simp add: get_annotation_string_def)

text \<open>
  C3, amended: when \<open>total_observed\<close> is present and is 0 or null, the summary is the empty
  list, whatever the rest of the payload, the threshold and the library function are.
\<close>

theorem unobserved_gives_empty_summary:
  assumes "total_observed i = Some JNull \<or> total_observed i = Some (JInt 0)"
  shows "get_annotation_string binom_cdf i pval = Inr []"
  using assms by (auto simp: get_annotation_string_def)

text \<open>The amended C3 at a payload with the count 0 and at one with null and no other key.\<close>

theorem unobserved_gives_empty_summary_witness:
  "get_annotation_string exact_binom_cdf
     \<lparr>total_samples = Some 100, total_observed = Some (JInt 0), info = Some []\<rparr> (1 / 10)
     = Inr []
   \<and> get_annotation_string exact_binom_cdf
     \<lparr>total_samples = None, total_observed = Some JNull, info = None\<rparr> (1 / 10)
     = Inr []"
  using unobserved_gives_empty_summary
          [of "\<lparr>total_samples = Some 100, total_observed = Some (JInt 0), info = Some []\<rparr>"
              exact_binom_cdf "1 / 10"]
        unobserved_gives_empty_summary
          [of "\<lparr>total_samples = None, total_observed = Some JNull, info = None\<rparr>"
              exact_binom_cdf "1 / 10"]
  by simp

subsection \<open>Filtering\<close>

text \<open>
  C4: whenever the loop ends, the list \<open>keep\<close> holds, in iteration order, exactly the
  triples whose p-value is a number less than or equal to \<open>pval\<close> (equality keeps, anything
  greater drops), each with the text \<open><field>:<value> (<observed_samples>/<total_samples>)\<close>;
  and the loop does end when no distribution has \<open>total_samples = 0\<close> and no quotient
  \<open>observed_samples / total_samples\<close> is too large for a float. This holds for every
  library function and every null rate.
\<close>

theorem kept_iff_pval_le_threshold:
  "(scan_fields binom_cdf pval null_pv finfo [] = Inr keep \<longrightarrow>
      map cdesc keep =
        map (\<lambda>(f, v, d). f @ '':'' @ v @ '' ('' @ fmt_d (observed_val_samples d) @ ''/''
                            @ fmt_d (total_val_samples d) @ '')'')
          (filter (\<lambda>(f, v, d).
                     case binom_cdf (total_val_samples d - observed_val_samples d)
                            (total_val_samples d) null_pv of
                       None \<Rightarrow> False | Some p \<Rightarrow> p \<le> pval)
             (triples finfo)))
   \<and> ((\<forall>(f, v, d) \<in> set (triples finfo).
          total_val_samples d \<noteq> 0
          \<and> truediv (observed_val_samples d) (total_val_samples d) \<noteq> Inl OverflowError) \<longrightarrow>
        (\<exists>keep. scan_fields binom_cdf pval null_pv finfo [] = Inr keep
           \<and> map cdesc keep =
               map (\<lambda>(f, v, d). f @ '':'' @ v @ '' ('' @ fmt_d (observed_val_samples d) @ ''/''
                                  @ fmt_d (total_val_samples d) @ '')'')
                 (filter (\<lambda>(f, v, d).
                            case binom_cdf (total_val_samples d - observed_val_samples d)
                                   (total_val_samples d) null_pv of
                              None \<Rightarrow> False | Some p \<Rightarrow> p \<le> pval)
                    (triples finfo))))"
proof -
  have partial: "map cdesc keep =
        map (\<lambda>(f, v, d). f @ '':'' @ v @ '' ('' @ fmt_d (observed_val_samples d) @ ''/''
                            @ fmt_d (total_val_samples d) @ '')'')
          (filter (\<lambda>(f, v, d).
                     case binom_cdf (total_val_samples d - observed_val_samples d)
                            (total_val_samples d) null_pv of
                       None \<Rightarrow> False | Some p \<Rightarrow> p \<le> pval)
             (triples finfo))"
    if "scan_fields binom_cdf pval null_pv finfo [] = Inr keep" for keep
  proof -
    from scan_fields_Inr [OF that]
    have "map (\<lambda>e. (cdesc e, cfrac e, Some (cpval e))) keep
            = map (descriptor binom_cdf null_pv)
                (filter (\<lambda>(f, v, d). significant binom_cdf pval null_pv d) (triples finfo))"
      by auto
    then have "map fst (map (\<lambda>e. (cdesc e, cfrac e, Some (cpval e))) keep)
            = map fst (map (descriptor binom_cdf null_pv)
                (filter (\<lambda>(f, v, d). significant binom_cdf pval null_pv d) (triples finfo)))"
      by simp
    then show ?thesis
      by (simp add: o_def descriptor_def significant_def pvalue_def case_prod_unfold)
  qed
  have total: "\<exists>keep. scan_fields binom_cdf pval null_pv finfo [] = Inr keep"
    if "\<forall>(f, v, d) \<in> set (triples finfo).
          total_val_samples d \<noteq> 0
          \<and> truediv (observed_val_samples d) (total_val_samples d) \<noteq> Inl OverflowError"
  proof (rule scan_fields_returns)
    show "\<forall>(f, v, d) \<in> set (triples finfo).
            \<exists>q. truediv (observed_val_samples d) (total_val_samples d) = Inr q"
      using that by (auto simp: truediv_returns_iff)
  qed
  from partial total show ?thesis by blast
qed

text \<open>
  C4 on the example payload with the threshold 1/2, the null rate 1/2 and the exact
  distribution function: \<open>host:a\<close> has the p-value 5/16 and is kept, \<open>host:b\<close> has the
  p-value 1/2, equal to the threshold, and is kept, \<open>host:c\<close> has the p-value 1 and is
  dropped.
\<close>

theorem kept_iff_pval_le_threshold_witness:
  "\<exists>keep. scan_fields exact_binom_cdf (1 / 2) (1 / 2) example_fields [] = Inr keep
     \<and> map cdesc keep = [''host:a (3/4)'', ''host:b (1/1)'']"
  using kept_iff_pval_le_threshold [of exact_binom_cdf "1 / 2" "1 / 2" example_fields]
  by (simp add: example_triples example_truediv example_cdf example_fmt_d)

subsection \<open>The summary that is returned\<close>

text \<open>What a call that returns a summary with a header has done.\<close>

lemma summary_Inr:
  assumes "get_annotation_string binom_cdf i pval = Inr (h # rest)"
  shows "\<exists>t n finfo q keep.
           total_observed i = Some (JInt t) \<and> t \<noteq> 0 \<and> total_samples i = Some n
           \<and> info i = Some finfo \<and> truediv t n = Inr q
           \<and> scan_fields binom_cdf pval (round_double (1 - fvalue q)) finfo [] = Inr keep
           \<and> h = ''Found in '' @ fmt_f q @ '' samples ('' @ fmt_d t @ '' / '' @ fmt_d n @ '')''
           \<and> rest = map cdesc (py_sorted cfrac True (py_sorted cpval False keep))"
  using assms
  by (auto simp: get_annotation_string_def split: option.splits jint.splits if_splits sum.splits)

subsection \<open>The p-value\<close>



subsection \<open>The header\<close>

text \<open>
  C5: for a payload with \<open>total_observed > 0\<close>, every summary that is returned is not empty
  and begins with \<open>Found in <total_observed/total_samples as a float, by %f> samples
  (<total_observed> / <total_samples>)\<close> with the two counts of the payload; and a summary
  is returned for every payload that is valid, that is, whose three keys are present, with
  \<open>total_observed \<le> total_samples\<close> and, in every distribution,
  \<open>0 \<le> observed_samples \<le> total_samples\<close> and \<open>total_samples > 0\<close>.
\<close>

theorem summary_starts_with_header:
  "(get_annotation_string binom_cdf i pval = Inr s \<and> total_observed i = Some (JInt t) \<and> 0 < t \<longrightarrow>
      (\<exists>n q rest. total_samples i = Some n \<and> truediv t n = Inr q
         \<and> s = (''Found in '' @ fmt_f q @ '' samples ('' @ fmt_d t @ '' / '' @ fmt_d n @ '')'')
               # rest))
   \<and> (total_observed i = Some (JInt t) \<and> 0 < t \<and> total_samples i = Some n \<and> t \<le> n
        \<and> info i = Some finfo
        \<and> (\<forall>(f, v, d) \<in> set (triples finfo).
              0 \<le> observed_val_samples d \<and> observed_val_samples d \<le> total_val_samples d
              \<and> 0 < total_val_samples d) \<longrightarrow>
        (\<exists>q rest. truediv t n = Inr q
           \<and> get_annotation_string binom_cdf i pval =
               Inr ((''Found in '' @ fmt_f q @ '' samples ('' @ fmt_d t @ '' / '' @ fmt_d n @ '')'')
                    # rest)))"
proof (intro conjI impI)
  assume a: "get_annotation_string binom_cdf i pval = Inr s \<and> total_observed i = Some (JInt t) \<and> 0 < t"
  then show "\<exists>n q rest. total_samples i = Some n \<and> truediv t n = Inr q
         \<and> s = (''Found in '' @ fmt_f q @ '' samples ('' @ fmt_d t @ '' / '' @ fmt_d n @ '')'')
               # rest"
    by (auto simp: get_annotation_string_def split: option.splits sum.splits)
next
  assume v: "total_observed i = Some (JInt t) \<and> 0 < t \<and> total_samples i = Some n \<and> t \<le> n
        \<and> info i = Some finfo
        \<and> (\<forall>(f, v, d) \<in> set (triples finfo).
              0 \<le> observed_val_samples d \<and> observed_val_samples d \<le> total_val_samples d
              \<and> 0 < total_val_samples d)"
  then obtain q where q: "truediv t n = Inr q"
    using truediv_rate_returns [of t n] by auto
  from v have "\<forall>(f, v, d) \<in> set (triples finfo).
                 \<exists>q. truediv (observed_val_samples d) (total_val_samples d) = Inr q"
    by (auto intro: truediv_rate_returns)
  from scan_fields_returns [OF this] obtain keep where
    "scan_fields binom_cdf pval (round_double (1 - fvalue q)) finfo [] = Inr keep"
    by blast
  with v q show "\<exists>q rest. truediv t n = Inr q
           \<and> get_annotation_string binom_cdf i pval =
               Inr ((''Found in '' @ fmt_f q @ '' samples ('' @ fmt_d t @ '' / '' @ fmt_d n @ '')'')
                    # rest)"
    by (simp add: get_annotation_string_def)
qed

text \<open>C5 on the example payload: the header reads 0.500000 and (1 / 2).\<close>

theorem summary_starts_with_header_witness:
  "\<exists>rest. get_annotation_string exact_binom_cdf example_info (1 / 2)
            = Inr (''Found in 0.500000 samples (1 / 2)'' # rest)"
  using summary_starts_with_header
          [of exact_binom_cdf example_info "1 / 2"
              "[''Found in 0.500000 samples (1 / 2)'', ''host:b (1/1)'', ''host:a (3/4)'']"
              1 2 example_fields]
  by (simp add: example_info_def example_triples example_truediv example_fmt_f example_fmt_d)

subsection \<open>The order of the summary\<close>

text \<open>
  C2: when a summary with a header is returned, its lines after the header are the texts
  of a list \<open>ks\<close> that is a rearrangement of the kept descriptors, each of them one
  significant triple's text with that triple's observed rate \<open>observed_samples /
  total_samples\<close> and p-value. In \<open>ks\<close> a descriptor with a higher observed rate stands
  before one with a lower rate whatever their p-values are, descriptors with equal rates
  stand in ascending order of p-value, and descriptors equal in both stand in the order of
  the loop: the outcome of a stable sort ascending by p-value followed by a stable sort
  descending by rate.
\<close>

theorem summary_is_ranked:
  assumes "get_annotation_string binom_cdf i pval = Inr (h # rest)"
  shows "\<exists>t n finfo q keep ks.
           total_observed i = Some (JInt t) \<and> total_samples i = Some n \<and> info i = Some finfo
           \<and> truediv t n = Inr q
           \<and> scan_fields binom_cdf pval (round_double (1 - fvalue q)) finfo [] = Inr keep
           \<and> map (\<lambda>e. (cdesc e, cfrac e, Some (cpval e))) keep =
               map (\<lambda>(f, v, d).
                      (f @ '':'' @ v @ '' ('' @ fmt_d (observed_val_samples d) @ ''/''
                         @ fmt_d (total_val_samples d) @ '')'',
                       observed_rate d,
                       pvalue binom_cdf (round_double (1 - fvalue q)) d))
                 (filter (\<lambda>(f, v, d). significant binom_cdf pval (round_double (1 - fvalue q)) d)
                    (triples finfo))
           \<and> rest = map cdesc ks
           \<and> mset ks = mset keep
           \<and> sorted_wrt (\<lambda>a b. cfrac b < cfrac a \<or> (cfrac a = cfrac b \<and> cpval a \<le> cpval b)) ks
           \<and> (\<forall>k r. filter (\<lambda>e. cfrac e = k \<and> cpval e = r) ks
                    = filter (\<lambda>e. cfrac e = k \<and> cpval e = r) keep)"
proof -
  from summary_Inr [OF assms] obtain t n finfo q keep where
    t: "total_observed i = Some (JInt t)" and n: "total_samples i = Some n"
    and f: "info i = Some finfo" and q: "truediv t n = Inr q"
    and scan: "scan_fields binom_cdf pval (round_double (1 - fvalue q)) finfo [] = Inr keep"
    and rest: "rest = map cdesc (py_sorted cfrac True (py_sorted cpval False keep))"
    by blast
  let ?np = "round_double (1 - fvalue q)"
  let ?ks = "py_sorted cfrac True (py_sorted cpval False keep)"
  from scan_fields_Inr [OF scan]
  have "map (\<lambda>e. (cdesc e, cfrac e, Some (cpval e))) keep
          = map (descriptor binom_cdf ?np)
              (filter (\<lambda>(f, v, d). significant binom_cdf pval ?np d) (triples finfo))"
    by auto
  then have tie: "map (\<lambda>e. (cdesc e, cfrac e, Some (cpval e))) keep =
               map (\<lambda>(f, v, d).
                      (f @ '':'' @ v @ '' ('' @ fmt_d (observed_val_samples d) @ ''/''
                         @ fmt_d (total_val_samples d) @ '')'',
                       observed_rate d, pvalue binom_cdf ?np d))
                 (filter (\<lambda>(f, v, d). significant binom_cdf pval ?np d) (triples finfo))"
    by (simp add: descriptor_def [abs_def] case_prod_unfold)
  have ms: "mset ?ks = mset keep" by (simp add: mset_py_sorted)
  have so: "sorted_wrt (\<lambda>a b. cfrac b < cfrac a \<or> (cfrac a = cfrac b \<and> cpval a \<le> cpval b)) ?ks"
    using two_sorts_ranked [of keep] by (simp add: ranked_before_def [abs_def])
  have st: "\<forall>k r. filter (\<lambda>e. cfrac e = k \<and> cpval e = r) ?ks
                    = filter (\<lambda>e. cfrac e = k \<and> cpval e = r) keep"
    by (simp add: two_sorts_stable)
  from t n f q scan tie rest ms so st show ?thesis by blast
qed

text \<open>
  C2 on the example payload with the threshold 1/2: \<open>host:b\<close> (rate 1/1, p-value 1/2)
  stands before \<open>host:a\<close> (rate 3/4, p-value 5/16), although its p-value is larger and
  the loop met it later.
\<close>

theorem summary_is_ranked_witness:
  "get_annotation_string exact_binom_cdf example_info (1 / 2)
     = Inr [''Found in 0.500000 samples (1 / 2)'', ''host:b (1/1)'', ''host:a (3/4)'']
   \<and> (\<exists>(keep :: scored list) (ks :: scored list).
         map (\<lambda>e. (cdesc e, cfrac e, Some (cpval e))) keep
           = [(''host:a (3/4)'', 3 / 4, Some (5 / 16)), (''host:b (1/1)'', 1, Some (1 / 2))]
         \<and> [''host:b (1/1)'', ''host:a (3/4)''] = map cdesc ks
         \<and> mset ks = mset keep
         \<and> sorted_wrt (\<lambda>a b. cfrac b < cfrac a \<or> (cfrac a = cfrac b \<and> cpval a \<le> cpval b)) ks)"
proof -
  from summary_is_ranked [OF example_summary] obtain t n finfo q and keep ks :: "scored list" where
    "total_observed example_info = Some (JInt t)" "total_samples example_info = Some n"
    "info example_info = Some finfo" "truediv t n = Inr q"
    and tie: "map (\<lambda>e. (cdesc e, cfrac e, Some (cpval e))) keep =
               map (\<lambda>(f, v, d).
                      (f @ '':'' @ v @ '' ('' @ fmt_d (observed_val_samples d) @ ''/''
                         @ fmt_d (total_val_samples d) @ '')'',
                       observed_rate d,
                       pvalue exact_binom_cdf (round_double (1 - fvalue q)) d))
                 (filter (\<lambda>(f, v, d). significant exact_binom_cdf (1 / 2) (round_double (1 - fvalue q)) d)
                    (triples finfo))"
    and b: "[''host:b (1/1)'', ''host:a (3/4)''] = map cdesc ks"
    and c: "mset ks = mset keep"
    and d: "sorted_wrt (\<lambda>a b. cfrac b < cfrac a \<or> (cfrac a = cfrac b \<and> cpval a \<le> cpval b)) ks"
    by (elim exE conjE) (rule that; assumption)
  then have "t = 1" "n = 2" "finfo = example_fields" "q = PyFloat False (1 / 2)"
    by (simp_all add: example_info_def example_truediv)
  with tie have a: "map (\<lambda>e. (cdesc e, cfrac e, Some (cpval e))) keep
           = [(''host:a (3/4)'', 3 / 4, Some (5 / 16)), (''host:b (1/1)'', 1, Some (1 / 2))]"
    by (simp add: fvalue_def round_double_half example_triples significant_def pvalue_def
          observed_rate_def example_truediv example_cdf example_fmt_d)
  show ?thesis
    by (intro conjI exI [of _ keep] exI [of _ ks]) (rule example_summary a b c d)+
qed

subsection \<open>Retrieval\<close>

lemma upper_acgt: "upper ''acgt'' = ''ACGT''"
  by (simp add: upper_def char_upper_def ascii_lowercase_def ascii_uppercase_def)

text \<open>
  C7: \<open>get_seq_annotations\<close> issues one request, to \<open>sequence/info\<close> under the base
  address, whose body carries the upper-cased sequence; and when the response to it has a
  status other than 200 (every non-success status is one), the result is the empty list
  and nothing is raised.
\<close>

theorem failed_request_gives_empty_summary:
  "fst (get_seq_annotations self http binom_cdf sequence)
     = [GET (dburl self @ ''/sequence/info'') [(''sequence'', upper sequence)]]
   \<and> (http (dburl self @ ''/sequence/info'') [(''sequence'', upper sequence)] = Inr res
        \<and> status_code res \<noteq> 200
        \<longrightarrow> snd (get_seq_annotations self http binom_cdf sequence) = Inr [])"
  by (simp add: get_seq_annotations_def get_def Let_def split: sum.splits)

text \<open>
  C7 for the sequence \<open>acgt\<close> and a server that answers 404: the request carries \<open>ACGT\<close>
  and the result is the empty list.
\<close>

theorem failed_request_gives_empty_summary_witness:
  "get_seq_annotations local_client not_found_server exact_binom_cdf ''acgt''
     = ([GET ''http://127.0.0.1:5000/sequence/info'' [(''sequence'', ''ACGT'')]], Inr [])"
  using failed_request_gives_empty_summary
          [of local_client not_found_server exact_binom_cdf "''acgt''"
              "\<lparr>status_code = 404, json = Inl JSONDecodeError\<rparr>"]
  by (simp add: prod_eq_iff upper_acgt local_client_def not_found_server_def)

lemma example_strings:
  "get_seq_annotation_strings local_client example_server exact_binom_cdf ''acgt''
     = ([GET ''http://127.0.0.1:5000/sequence/info'' [(''sequence'', ''ACGT'')]],
        Inr [([(''annotationtype'', ''other''), (''sequence'', ''acgt'')],
              ''Found in 0.500000 samples (1 / 2)'')])"
  by (simp add: get_seq_annotation_strings_def get_seq_annotations_def get_def Let_def
        upper_acgt local_client_def example_server_def example_summary_default)

text \<open>
  C10: when \<open>get_seq_annotation_strings\<close> returns, the one request it caused carries the
  upper-cased sequence, while every pair of the result has the metadata
  \<open>{'annotationtype': 'other', 'sequence': sequence}\<close> with the sequence exactly as the caller
  gave it, next to one line of the summary of \<open>get_seq_annotations\<close>, in the same order.
\<close>

theorem annotation_strings_keep_original_sequence:
  assumes "get_seq_annotation_strings self http binom_cdf sequence = (reqs, Inr shortdesc)"
  shows "reqs = [GET (dburl self @ ''/sequence/info'') [(''sequence'', upper sequence)]]
       \<and> (\<forall>p \<in> set shortdesc. fst p = [(''annotationtype'', ''other''), (''sequence'', sequence)])
       \<and> get_seq_annotations self http binom_cdf sequence = (reqs, Inr (map snd shortdesc))"
proof -
  obtain r where r: "get_seq_annotations self http binom_cdf sequence = (reqs, r)"
    using assms by (auto simp: get_seq_annotation_strings_def split: prod.splits sum.splits)
  from assms r obtain annotations where a: "r = Inr annotations"
    and s: "shortdesc = map (\<lambda>cann. ([(''annotationtype'', ''other''), (''sequence'', sequence)], cann))
                           annotations"
    by (auto simp: get_seq_annotation_strings_def split: sum.splits)
  have "reqs = fst (get_seq_annotations self http binom_cdf sequence)" by (simp add: r)
  also have "\<dots> = [GET (dburl self @ ''/sequence/info'') [(''sequence'', upper sequence)]]"
    by (simp add: get_seq_annotations_def get_def Let_def split: sum.splits)
  finally show ?thesis by (simp add: r a s o_def)
qed

text \<open>
  C10 for the sequence \<open>acgt\<close> and a server that has no significant annotation for it: the
  request carries \<open>ACGT\<close>, the metadata of the header line carries \<open>acgt\<close>.
\<close>

theorem annotation_strings_keep_original_sequence_witness:
  "get_seq_annotation_strings local_client example_server exact_binom_cdf ''acgt''
     = ([GET ''http://127.0.0.1:5000/sequence/info'' [(''sequence'', ''ACGT'')]],
        Inr [([(''annotationtype'', ''other''), (''sequence'', ''acgt'')],
              ''Found in 0.500000 samples (1 / 2)'')])
   \<and> get_seq_annotations local_client example_server exact_binom_cdf ''acgt''
     = ([GET ''http://127.0.0.1:5000/sequence/info'' [(''sequence'', ''ACGT'')]],
        Inr [''Found in 0.500000 samples (1 / 2)''])"
  using annotation_strings_keep_original_sequence [OF example_strings] example_strings
  by simp

end
